theory Spec2Isabelle
  imports Complex_Main "HOL-Library.Char_ord" "HOL-Library.List_Lexorder"
begin

section \<open>JavaScript values used by the two components\<close>

text \<open>
  A JavaScript \<^verbatim>\<open>number\<close> is a double. The code only compares numbers and tests them for
  membership in an array; it never adds or multiplies them (the one subtraction is on
  millisecond timestamps, which are integers). Every finite double is a real number, so a
  number is a real, one of the two infinities, or NaN, and the comparison operators are
  written out with the results ECMAScript gives them: every comparison with NaN is false.
\<close>

datatype number = NaN | NegInf | Fin real | PosInf

fun js_lt :: "number \<Rightarrow> number \<Rightarrow> bool" where
  "js_lt NaN _ = False"
| "js_lt _ NaN = False"
| "js_lt (Fin a) (Fin b) = (a < b)"
| "js_lt NegInf NegInf = False"
| "js_lt NegInf _ = True"
| "js_lt _ NegInf = False"
| "js_lt PosInf _ = False"
| "js_lt _ PosInf = True"

definition js_gt :: "number \<Rightarrow> number \<Rightarrow> bool" where
  "js_gt a b = js_lt b a"

definition js_le :: "number \<Rightarrow> number \<Rightarrow> bool" where
  "js_le a b = (a \<noteq> NaN \<and> b \<noteq> NaN \<and> \<not> js_lt b a)"

definition js_ge :: "number \<Rightarrow> number \<Rightarrow> bool" where
  "js_ge a b = js_le b a"

text \<open>
  Most strings of the program (identifiers, category labels, the query text) are only
  compared and sorted: they are lists of 8-bit characters, read as the code units U+0000
  to U+00FF. The display name and the search string are also lower-cased, and
  \<^verbatim>\<open>String.prototype.toLowerCase\<close> follows the Unicode case mappings, which are not one
  character to one character everywhere. These two strings are lists of \<open>js_char\<close>: a
  Latin-1 character (Basic Latin and Latin-1 Supplement), or one of the three forms of the
  Greek letter sigma, the one letter of the Unicode data whose lower case depends on its
  neighbours.
\<close>

datatype js_char = Latin1 char | Capital_Sigma | Small_Sigma | Final_Small_Sigma

type_synonym js_string = "js_char list"

text \<open>A string literal of the source, as a \<open>js_string\<close>.\<close>

definition str :: "string \<Rightarrow> js_string" where
  "str s = map Latin1 s"

text \<open>
  The capital letters of Latin-1 with their small letters (UnicodeData.txt): A to Z,
  U+00C0 to U+00D6 and U+00D8 to U+00DE, each 32 below its small letter. The
  multiplication sign U+00D7 is not a letter.
\<close>

definition upper_lower_pairs :: "(char \<times> char) list" where
  "upper_lower_pairs =
     zip ''ABCDEFGHIJKLMNOPQRSTUVWXYZ'' ''abcdefghijklmnopqrstuvwxyz'' @
     [(CHR 0xC0, CHR 0xE0), (CHR 0xC1, CHR 0xE1), (CHR 0xC2, CHR 0xE2), (CHR 0xC3, CHR 0xE3),
      (CHR 0xC4, CHR 0xE4), (CHR 0xC5, CHR 0xE5), (CHR 0xC6, CHR 0xE6), (CHR 0xC7, CHR 0xE7),
      (CHR 0xC8, CHR 0xE8), (CHR 0xC9, CHR 0xE9), (CHR 0xCA, CHR 0xEA), (CHR 0xCB, CHR 0xEB),
      (CHR 0xCC, CHR 0xEC), (CHR 0xCD, CHR 0xED), (CHR 0xCE, CHR 0xEE), (CHR 0xCF, CHR 0xEF),
      (CHR 0xD0, CHR 0xF0), (CHR 0xD1, CHR 0xF1), (CHR 0xD2, CHR 0xF2), (CHR 0xD3, CHR 0xF3),
      (CHR 0xD4, CHR 0xF4), (CHR 0xD5, CHR 0xF5), (CHR 0xD6, CHR 0xF6),
      (CHR 0xD8, CHR 0xF8), (CHR 0xD9, CHR 0xF9), (CHR 0xDA, CHR 0xFA), (CHR 0xDB, CHR 0xFB),
      (CHR 0xDC, CHR 0xFC), (CHR 0xDD, CHR 0xFD), (CHR 0xDE, CHR 0xFE)]"

text \<open>The lower-case mapping of one Latin-1 character.\<close>

definition lower_char :: "char \<Rightarrow> char" where
  "lower_char c = (case map_of upper_lower_pairs c of None \<Rightarrow> c | Some l \<Rightarrow> l)"

text \<open>
  The lower-case mapping of one character out of context: capital sigma goes to small
  sigma.
\<close>

fun lower_js_char :: "js_char \<Rightarrow> js_char" where
  "lower_js_char (Latin1 c) = Latin1 (lower_char c)"
| "lower_js_char Capital_Sigma = Small_Sigma"
| "lower_js_char Small_Sigma = Small_Sigma"
| "lower_js_char Final_Small_Sigma = Final_Small_Sigma"

text \<open>
  The properties Cased and Case_Ignorable (DerivedCoreProperties.txt) on these
  characters. Cased: the capital and small letters, the sharp s U+00DF, the y with
  diaeresis U+00FF, the ordinal indicators U+00AA and U+00BA, the micro sign U+00B5, and
  the sigmas. Case_Ignorable: apostrophe, full stop, colon, circumflex, grave accent,
  diaeresis, soft hyphen, macron, acute accent, middle dot, cedilla.
\<close>

fun cased :: "js_char \<Rightarrow> bool" where
  "cased (Latin1 c) =
     (c \<in> set (map fst upper_lower_pairs) \<or> c \<in> set (map snd upper_lower_pairs) \<or>
      c \<in> set [CHR 0xAA, CHR 0xB5, CHR 0xBA, CHR 0xDF, CHR 0xFF])"
| "cased _ = True"

fun case_ignorable :: "js_char \<Rightarrow> bool" where
  "case_ignorable (Latin1 c) =
     (c \<in> set [CHR 0x27, CHR 0x2E, CHR 0x3A, CHR 0x5E, CHR 0x60, CHR 0xA8, CHR 0xAD, CHR 0xAF,
                CHR 0xB4, CHR 0xB7, CHR 0xB8])"
| "case_ignorable _ = False"

text \<open>
  The condition Final_Sigma of SpecialCasing.txt: the capital sigma is preceded by a cased
  letter and then any number of case-ignorable characters, and is not followed by any
  number of case-ignorable characters and then a cased letter. \<open>cased_after_ignorables\<close>
  reads the characters in the order of their distance from the sigma.
\<close>

fun cased_after_ignorables :: "js_string \<Rightarrow> bool" where
  "cased_after_ignorables [] = False"
| "cased_after_ignorables (c # cs) =
     (if case_ignorable c then cased_after_ignorables cs else cased c)"

definition final_sigma :: "js_string \<Rightarrow> js_string \<Rightarrow> bool" where
  "final_sigma before_reversed after =
     (cased_after_ignorables before_reversed \<and> \<not> cased_after_ignorables after)"

text \<open>
  \<^verbatim>\<open>String.prototype.toLowerCase\<close>: every character goes to its lower case, the capital
  sigma to the final small sigma where Final_Sigma holds in the string as it was.
  \<open>lower_from before s\<close> lower-cases \<open>s\<close>, with the characters before it, last first, in
  \<open>before\<close>.
\<close>

fun lower_from :: "js_string \<Rightarrow> js_string \<Rightarrow> js_string" where
  "lower_from before [] = []"
| "lower_from before (c # rest) =
     (if c = Capital_Sigma \<and> final_sigma before rest then Final_Small_Sigma else lower_js_char c)
       # lower_from (c # before) rest"

definition toLowerCase :: "js_string \<Rightarrow> js_string" where
  "toLowerCase s = lower_from [] s"

text \<open>
  \<^verbatim>\<open>String.prototype.includes\<close> searches for the argument at every position, from the
  left.
\<close>

fun starts_with :: "'a list \<Rightarrow> 'a list \<Rightarrow> bool" where
  "starts_with _ [] = True"
| "starts_with [] (_ # _) = False"
| "starts_with (x # xs) (y # ys) = (x = y \<and> starts_with xs ys)"

fun js_includes :: "'a list \<Rightarrow> 'a list \<Rightarrow> bool" where
  "js_includes [] s = (s = [])"
| "js_includes (x # xs) s = (starts_with (x # xs) s \<or> js_includes xs s)"

section \<open>The data model\<close>

text \<open>
  One element of \<^verbatim>\<open>PlaceResponse.places\<close>, the upstream record. An optional field is an
  option; \<^verbatim>\<open>null\<close> and \<^verbatim>\<open>undefined\<close> are both \<open>None\<close>, since the code reads these fields
  only through \<^verbatim>\<open>??\<close>, \<^verbatim>\<open>?.\<close>, \<^verbatim>\<open>===\<close> and \<^verbatim>\<open>includes\<close>, which do not tell them apart.
  \<open>displayName_text\<close> is the value of \<^verbatim>\<open>p.displayName?.text\<close> and
  \<open>currentOpeningHours_openNow\<close> the value of \<^verbatim>\<open>p.currentOpeningHours?.openNow\<close>.
\<close>

record raw_place =
  r_id :: string
  placeId :: string
  displayName_text :: "js_string option"
  r_rating :: "number option"
  userRatingCount :: "number option"
  priceLevel :: "number option"
  r_types :: "string list option"
  currentOpeningHours_openNow :: "bool option"
  businessStatus :: "string option"

record PlaceResponse =
  places :: "raw_place list option"

text \<open>The canonical record, \<^verbatim>\<open>interface Place\<close>, shared by the route and the component.\<close>

record Place =
  p_id :: string
  place_id :: string
  name :: js_string
  rating :: number
  user_ratings_total :: number
  price_level :: number
  types :: "string list"
  open_now :: "bool option"

definition PRICE_LEVELS :: "number list" where
  "PRICE_LEVELS = [Fin 0, Fin 1, Fin 2, Fin 3, Fin 4]"

section \<open>The route handler: normalisation and server-side filters\<close>

text \<open>The callback of the first \<^verbatim>\<open>.filter\<close>: \<^verbatim>\<open>p.businessStatus === "OPERATIONAL"\<close>.\<close>

definition operational :: "raw_place \<Rightarrow> bool" where
  "operational p = (businessStatus p = Some ''OPERATIONAL'')"

text \<open>The callback of \<^verbatim>\<open>.map\<close>: one raw record to one \<^verbatim>\<open>Place\<close>.\<close>

definition to_place :: "raw_place \<Rightarrow> Place" where
  "to_place p =
     \<lparr> p_id = r_id p,
       place_id = placeId p,
       name = (case displayName_text p of None \<Rightarrow> str ''Unknown'' | Some t \<Rightarrow> t),
       rating = (case r_rating p of None \<Rightarrow> Fin 0 | Some r \<Rightarrow> r),
       user_ratings_total = (case userRatingCount p of None \<Rightarrow> Fin 0 | Some n \<Rightarrow> n),
       price_level =
         (case priceLevel p of
            None \<Rightarrow> Fin 0
          | Some l \<Rightarrow> if l \<in> set PRICE_LEVELS then l else Fin 0),
       types = (case r_types p of None \<Rightarrow> [] | Some ts \<Rightarrow> ts),
       open_now = currentOpeningHours_openNow p \<rparr>"

text \<open>\<^verbatim>\<open>json.places ?? []\<close>: the records of a response, none when the field is missing.\<close>

definition raw_records :: "PlaceResponse \<Rightarrow> raw_place list" where
  "raw_records json = (case places json of None \<Rightarrow> [] | Some ps \<Rightarrow> ps)"

text \<open>\<^verbatim>\<open>(json.places ?? []).filter(...).map(...)\<close>: the normaliser.\<close>

definition normalize_places :: "PlaceResponse \<Rightarrow> Place list" where
  "normalize_places json = map to_place (filter operational (raw_records json))"

text \<open>The callbacks of the two filters that follow the map.\<close>

definition price_ok :: "number \<Rightarrow> number \<Rightarrow> Place \<Rightarrow> bool" where
  "price_ok minPrice maxPrice p =
     (js_ge (price_level p) minPrice \<and> js_le (price_level p) maxPrice)"

definition open_ok :: "bool \<Rightarrow> Place \<Rightarrow> bool" where
  "open_ok openNow p = (if openNow then open_now p \<noteq> Some False else True)"

definition mapped :: "PlaceResponse \<Rightarrow> number \<Rightarrow> number \<Rightarrow> bool \<Rightarrow> Place list" where
  "mapped json minPrice maxPrice openNow =
     filter (open_ok openNow) (filter (price_ok minPrice maxPrice) (normalize_places json))"

section \<open>The route handler: cache, upstream call, responses\<close>

text \<open>
  The cache key is \<^verbatim>\<open>JSON.stringify({ q, openNow, minPrice, maxPrice, type })\<close>. The text
  that \<^verbatim>\<open>JSON.stringify\<close> prints determines the object it printed (field order fixed,
  strings escaped), so the key is kept as that object: the five fields in order, each a
  JSON value. \<^verbatim>\<open>JSON.stringify\<close> prints NaN and the infinities as \<^verbatim>\<open>null\<close>.
\<close>

datatype json_value = JString string | JBool bool | JNumber real | JNull

fun json_number :: "number \<Rightarrow> json_value" where
  "json_number (Fin x) = JNumber x"
| "json_number _ = JNull"

type_synonym cache_key = "(string \<times> json_value) list"

definition cacheKey_of :: "string \<Rightarrow> bool \<Rightarrow> number \<Rightarrow> number \<Rightarrow> string \<Rightarrow> cache_key" where
  "cacheKey_of q openNow minPrice maxPrice type =
     [(''q'', JString q), (''openNow'', JBool openNow), (''minPrice'', json_number minPrice),
      (''maxPrice'', json_number maxPrice), (''type'', JString type)]"

record cache_entry =
  entry_t :: int
  entry_data :: "Place list"

text \<open>Time-to-live in milliseconds (12 hours).\<close>

definition TTL :: int where
  "TTL = 1000 * 60 * 60 * 12"

text \<open>The JSON body of the POST to the places API.\<close>

record api_request =
  textQuery :: string
  maxResultCount :: nat
  includedType :: string
  languageCode :: string
  regionCode :: string

definition request_body :: "string \<Rightarrow> string \<Rightarrow> api_request" where
  "request_body q type =
     \<lparr> textQuery = q,
       maxResultCount = 50,
       includedType = (if type = [] then ''restaurant'' else type),
       languageCode = ''en'',
       regionCode = ''US'' \<rparr>"

text \<open>
  The JSON value of a response body, as far as the handler looks at it. The value is
  \<^verbatim>\<open>null\<close>, or it is a value with a \<^verbatim>\<open>places\<close> property that is absent (or \<^verbatim>\<open>null\<close>),
  an array, or something that is not an array. An element of the array is \<^verbatim>\<open>null\<close>, a
  record, or a value that is neither (a number, a string, an array), which has no
  \<^verbatim>\<open>businessStatus\<close>.
\<close>

datatype element_json = Null_element | Other_element | Record raw_place

datatype places_json = Places_absent | Places_array "element_json list" | Places_other

datatype body_json = Null_body | Body places_json

text \<open>
  The cast \<^verbatim>\<open>(await res.json()) as PlaceResponse\<close> checks nothing, and three reads of the
  chain that follows throw a \<^verbatim>\<open>TypeError\<close>: \<^verbatim>\<open>json.places\<close> when the body is \<^verbatim>\<open>null\<close>,
  \<^verbatim>\<open>.filter\<close> when \<^verbatim>\<open>places\<close> is not an array, and \<^verbatim>\<open>p.businessStatus\<close> when an element
  is \<^verbatim>\<open>null\<close>.
\<close>

fun throws_TypeError :: "body_json \<Rightarrow> bool" where
  "throws_TypeError Null_body = True"
| "throws_TypeError (Body Places_absent) = False"
| "throws_TypeError (Body Places_other) = True"
| "throws_TypeError (Body (Places_array els)) = (Null_element \<in> set els)"

text \<open>
  The body as a \<^verbatim>\<open>PlaceResponse\<close> when nothing throws. An element that is not a record
  has no \<^verbatim>\<open>businessStatus\<close>, so the first filter drops it: it is left out here.
\<close>

fun as_PlaceResponse :: "body_json \<Rightarrow> PlaceResponse" where
  "as_PlaceResponse (Body (Places_array els)) = \<lparr> places = Some [r. Record r \<leftarrow> els] \<rparr>"
| "as_PlaceResponse _ = \<lparr> places = None \<rparr>"

text \<open>
  What \<^verbatim>\<open>fetch\<close> gives back: the promise rejects (no response at all), or it resolves to a
  response with its \<^verbatim>\<open>ok\<close> flag, the body as text (\<^verbatim>\<open>res.text()\<close>) and the body parsed
  as JSON (\<^verbatim>\<open>res.json()\<close>, \<open>None\<close> when the body is not JSON and the call throws).
\<close>

record upstream_response =
  res_ok :: bool
  res_text :: string
  res_json :: "body_json option"

datatype fetch_result = Rejected | Resolved upstream_response

text \<open>
  What the handler hands to the framework: \<^verbatim>\<open>NextResponse.json(body, { status })\<close>, whose
  body is an object with a \<^verbatim>\<open>places\<close> field or an \<^verbatim>\<open>error\<close> field, or an exception.
\<close>

record response_body =
  places_field :: "Place list option"
  error_field :: "string option"

record http_response =
  status :: nat
  body :: response_body

datatype handler_error = FetchRejected | BodyNotJson | TypeError

definition NextResponse_json :: "response_body \<Rightarrow> nat \<Rightarrow> http_response" where
  "NextResponse_json b st = \<lparr> status = st, body = b \<rparr>"

text \<open>
  The state of the server process: the module-level \<^verbatim>\<open>CACHE\<close> map, and the requests sent
  to the places API so far (every \<^verbatim>\<open>fetch\<close> the handler makes is appended).
\<close>

record server_state =
  CACHE :: "cache_key \<rightharpoonup> cache_entry"
  api_calls :: "api_request list"

text \<open>
  The handler, after the five parameters have been read from the URL. \<open>fetch\<close> is the
  places API, \<open>now_check\<close> the value of \<^verbatim>\<open>Date.now()\<close> in the freshness test and
  \<open>now_store\<close> its value when the entry is stored.
\<close>

definition GET ::
  "(api_request \<Rightarrow> fetch_result) \<Rightarrow> int \<Rightarrow> int \<Rightarrow>
   string \<Rightarrow> bool \<Rightarrow> number \<Rightarrow> number \<Rightarrow> string \<Rightarrow>
   server_state \<Rightarrow> (handler_error + http_response) \<times> server_state" where
  "GET fetch now_check now_store q openNow minPrice maxPrice type s =
     (let cacheKey = cacheKey_of q openNow minPrice maxPrice type;
          cached = CACHE s cacheKey
      in case (case cached of
                 None \<Rightarrow> None
               | Some c \<Rightarrow> if now_check - entry_t c < TTL then Some c else None) of
           Some c \<Rightarrow>
             (Inr (NextResponse_json \<lparr> places_field = Some (entry_data c), error_field = None \<rparr> 200), s)
         | None \<Rightarrow>
             (let req = request_body q type;
                  s1 = s \<lparr> api_calls := api_calls s @ [req] \<rparr>
              in case fetch req of
                   Rejected \<Rightarrow> (Inl FetchRejected, s1)
                 | Resolved res \<Rightarrow>
                     if \<not> res_ok res then
                       (Inr (NextResponse_json
                               \<lparr> places_field = None, error_field = Some (res_text res) \<rparr> 500), s1)
                     else
                       (case res_json res of
                          None \<Rightarrow> (Inl BodyNotJson, s1)
                        | Some b \<Rightarrow>
                            if throws_TypeError b then (Inl TypeError, s1)
                            else
                              (let json = as_PlaceResponse b;
                                   m = mapped json minPrice maxPrice openNow
                               in (Inr (NextResponse_json
                                          \<lparr> places_field = Some m, error_field = None \<rparr> 200),
                                   s1 \<lparr> CACHE := (CACHE s1)
                                          (cacheKey \<mapsto> \<lparr> entry_t = now_store, entry_data = m \<rparr>) \<rparr>)))))"

text \<open>
  The first lines of the handler read the five parameters from the query string, each
  with its default. \<open>searchParams\<close> is \<^verbatim>\<open>searchParams.get\<close>, and \<open>to_number\<close> is the
  JavaScript conversion \<^verbatim>\<open>Number\<close> of a string, which the handler takes from the runtime.
\<close>

definition GET_from_url ::
  "(string \<Rightarrow> number) \<Rightarrow> (api_request \<Rightarrow> fetch_result) \<Rightarrow> int \<Rightarrow> int \<Rightarrow>
   (string \<rightharpoonup> string) \<Rightarrow> server_state \<Rightarrow> (handler_error + http_response) \<times> server_state" where
  "GET_from_url to_number fetch now_check now_store searchParams s =
     (let q = (case searchParams ''q'' of None \<Rightarrow> ''restaurants in Boston, MA'' | Some v \<Rightarrow> v);
          openNow = (searchParams ''openNow'' = Some ''true'');
          minPrice = to_number (case searchParams ''minPrice'' of None \<Rightarrow> ''0'' | Some v \<Rightarrow> v);
          maxPrice = to_number (case searchParams ''maxPrice'' of None \<Rightarrow> ''4'' | Some v \<Rightarrow> v);
          type = (case searchParams ''type'' of None \<Rightarrow> [] | Some v \<Rightarrow> v)
      in GET fetch now_check now_store q openNow minPrice maxPrice type s)"

section \<open>The component: category options and the client-side filter\<close>

text \<open>
  A JavaScript \<^verbatim>\<open>Set\<close> keeps its elements in insertion order and \<^verbatim>\<open>add\<close> of an element
  already in it changes nothing. \<^verbatim>\<open>Array.from(set).sort()\<close> sorts strings by their
  character codes, a proper prefix first.
\<close>

definition set_add :: "'a list \<Rightarrow> 'a \<Rightarrow> 'a list" where
  "set_add s x = (if x \<in> set s then s else s @ [x])"

definition availableTypes :: "Place list \<Rightarrow> string list" where
  "availableTypes data =
     sort (fold (\<lambda>p s. fold (\<lambda>t s. set_add s t) (types p) s) data [])"

text \<open>The callback of \<^verbatim>\<open>data.filter\<close>: four tests, each an early \<^verbatim>\<open>return false\<close>.\<close>

definition keep :: "js_string \<Rightarrow> bool \<Rightarrow> number \<times> number \<Rightarrow> string \<Rightarrow> Place \<Rightarrow> bool" where
  "keep search openNowOnly priceRange selectedType p =
     (if search \<noteq> [] \<and> \<not> js_includes (toLowerCase (name p)) (toLowerCase search) then False
      else if openNowOnly \<and> open_now p = Some False then False
      else if js_lt (price_level p) (fst priceRange) \<or> js_gt (price_level p) (snd priceRange)
        then False
      else if selectedType \<noteq> [] \<and> selectedType \<notin> set (types p) then False
      else True)"

definition filtered ::
  "Place list \<Rightarrow> js_string \<Rightarrow> bool \<Rightarrow> number \<times> number \<Rightarrow> string \<Rightarrow> Place list" where
  "filtered data search openNowOnly priceRange selectedType =
     filter (keep search openNowOnly priceRange selectedType) data"

section \<open>Predicates of the specification\<close>

text \<open>
  The invariants the specification gives for a \<^verbatim>\<open>Place\<close>: price tier in [0,4], rating and
  review count non-negative.
\<close>

definition place_invariant :: "Place \<Rightarrow> bool" where
  "place_invariant p =
     (js_le (Fin 0) (price_level p) \<and> js_le (price_level p) (Fin 4) \<and>
      js_le (Fin 0) (rating p) \<and> js_le (Fin 0) (user_ratings_total p))"

text \<open>A price tier of the upstream record that lies outside [0,4].\<close>

definition out_of_range :: "number \<Rightarrow> bool" where
  "out_of_range l = (\<not> (js_le (Fin 0) l \<and> js_le l (Fin 4)))"

text \<open>
  What the specification asks of the \<^verbatim>\<open>Place\<close> made from an upstream record: the record
  is an operating one, the identifier is its identifier, each missing field has its
  default, an out-of-range price tier has become 0, and the open-now flag is the record's.
\<close>

definition normalized_from :: "raw_place \<Rightarrow> Place \<Rightarrow> bool" where
  "normalized_from r p =
     (businessStatus r = Some ''OPERATIONAL'' \<and>
      p_id p = r_id r \<and>
      (r_rating r = None \<longrightarrow> rating p = Fin 0) \<and>
      (userRatingCount r = None \<longrightarrow> user_ratings_total p = Fin 0) \<and>
      (priceLevel r = None \<longrightarrow> price_level p = Fin 0) \<and>
      (\<forall>l. priceLevel r = Some l \<and> out_of_range l \<longrightarrow> price_level p = Fin 0) \<and>
      (r_types r = None \<longrightarrow> types p = []) \<and>
      open_now p = currentOpeningHours_openNow r)"

text \<open>An upstream record whose rating and review count, where present, are not negative.\<close>

definition upstream_non_negative :: "raw_place \<Rightarrow> bool" where
  "upstream_non_negative r =
     ((case r_rating r of None \<Rightarrow> True | Some x \<Rightarrow> js_le (Fin 0) x) \<and>
      (case userRatingCount r of None \<Rightarrow> True | Some n \<Rightarrow> js_le (Fin 0) n))"

text \<open>
  Two Latin-1 characters are the same letter up to case: they are equal, or one is the
  capital and the other the small form of one letter.
\<close>

definition same_letter :: "char \<Rightarrow> char \<Rightarrow> bool" where
  "same_letter a b =
     (a = b \<or> (a, b) \<in> set upper_lower_pairs \<or> (b, a) \<in> set upper_lower_pairs)"

text \<open>The same for a \<open>js_char\<close>: the three sigmas are forms of one letter.\<close>

fun same_letter_js :: "js_char \<Rightarrow> js_char \<Rightarrow> bool" where
  "same_letter_js (Latin1 a) (Latin1 b) = same_letter a b"
| "same_letter_js (Latin1 a) _ = False"
| "same_letter_js _ (Latin1 b) = False"
| "same_letter_js _ _ = True"

text \<open>
  \<open>s\<close> is a case-insensitive substring of \<open>n\<close>: some contiguous part of \<open>n\<close> is \<open>s\<close> up to
  the case of its letters.
\<close>

definition ci_substring :: "js_string \<Rightarrow> js_string \<Rightarrow> bool" where
  "ci_substring s n = (\<exists>pre u post. n = pre @ u @ post \<and> list_all2 same_letter_js u s)"

text \<open>A string of Latin-1 characters only.\<close>

fun is_latin1 :: "js_char \<Rightarrow> bool" where
  "is_latin1 (Latin1 c) = True"
| "is_latin1 _ = False"

definition latin1_only :: "js_string \<Rightarrow> bool" where
  "latin1_only s = list_all is_latin1 s"

text \<open>The cache holds \<open>c\<close> under key \<open>k\<close> and its age at time \<open>now\<close> is below the TTL.\<close>

definition fresh_entry :: "server_state \<Rightarrow> cache_key \<Rightarrow> int \<Rightarrow> cache_entry \<Rightarrow> bool" where
  "fresh_entry s k now c = (CACHE s k = Some c \<and> now - entry_t c < TTL)"

text \<open>A 2xx status.\<close>

definition success_status :: "nat \<Rightarrow> bool" where
  "success_status st = (200 \<le> st \<and> st < 300)"

section \<open>Sample data\<close>

definition sample_closed :: raw_place where
  "sample_closed =
     \<lparr> r_id = ''a1'', placeId = ''ga1'', displayName_text = Some (str ''Shut Diner''),
       r_rating = Some (Fin 4), userRatingCount = Some (Fin 12), priceLevel = Some (Fin 2),
       r_types = Some [''diner''], currentOpeningHours_openNow = Some False,
       businessStatus = Some ''CLOSED_TEMPORARILY'' \<rparr>"

definition sample_sparse :: raw_place where
  "sample_sparse =
     \<lparr> r_id = ''b2'', placeId = ''gb2'', displayName_text = Some (str ''Bare Bones''),
       r_rating = None, userRatingCount = None, priceLevel = Some (Fin 7),
       r_types = None, currentOpeningHours_openNow = None,
       businessStatus = Some ''OPERATIONAL'' \<rparr>"

definition sample_negative :: raw_place where
  "sample_negative =
     \<lparr> r_id = ''c3'', placeId = ''gc3'', displayName_text = Some (str ''Odd Data''),
       r_rating = Some (Fin (-1)), userRatingCount = Some (Fin (-5)), priceLevel = Some (Fin 2),
       r_types = Some [''cafe''], currentOpeningHours_openNow = Some True,
       businessStatus = Some ''OPERATIONAL'' \<rparr>"

definition sample_full :: raw_place where
  "sample_full =
     \<lparr> r_id = ''d4'', placeId = ''gd4'', displayName_text = Some (str ''Sushi Bar''),
       r_rating = Some (Fin 4.5), userRatingCount = Some (Fin 320), priceLevel = Some (Fin 3),
       r_types = Some [''sushi'', ''restaurant''], currentOpeningHours_openNow = Some True,
       businessStatus = Some ''OPERATIONAL'' \<rparr>"

definition sushi_bar :: Place where
  "sushi_bar =
     \<lparr> p_id = ''d4'', place_id = ''gd4'', name = str ''Sushi Bar'', rating = Fin 4.5,
       user_ratings_total = Fin 320, price_level = Fin 3, types = [''sushi'', ''restaurant''],
       open_now = Some True \<rparr>"

definition pizza_corner :: Place where
  "pizza_corner =
     \<lparr> p_id = ''e5'', place_id = ''ge5'', name = str ''Pizza Corner'', rating = Fin 3.9,
       user_ratings_total = Fin 45, price_level = Fin 0, types = [''pizza'', ''restaurant''],
       open_now = Some False \<rparr>"

definition noodle_house :: Place where
  "noodle_house =
     \<lparr> p_id = ''f6'', place_id = ''gf6'', name = str ''Noodle House'', rating = Fin 4.1,
       user_ratings_total = Fin 0, price_level = Fin 4, types = [],
       open_now = None \<rparr>"

text \<open>
  A place whose name is CAFE in capitals with an acute accent on the E (U+00C9), and one
  whose name is the letter A followed by a capital sigma.
\<close>

definition cafe :: Place where
  "cafe =
     \<lparr> p_id = ''g7'', place_id = ''gg7'', name = str ''CAF'' @ [Latin1 (CHR 0xC9)],
       rating = Fin 4.7, user_ratings_total = Fin 89, price_level = Fin 2, types = [''cafe''],
       open_now = Some True \<rparr>"

definition alpha_sigma :: Place where
  "alpha_sigma =
     \<lparr> p_id = ''h8'', place_id = ''gh8'', name = [Latin1 (CHR ''A''), Capital_Sigma],
       rating = Fin 4.2, user_ratings_total = Fin 17, price_level = Fin 1, types = [''greek''],
       open_now = None \<rparr>"

definition sample_places :: "Place list" where
  "sample_places = [sushi_bar, pizza_corner, noodle_house]"

definition failing_api :: "api_request \<Rightarrow> fetch_result" where
  "failing_api req =
     Resolved \<lparr> res_ok = False, res_text = ''quota exceeded'', res_json = None \<rparr>"

definition sample_api :: "api_request \<Rightarrow> fetch_result" where
  "sample_api req =
     Resolved \<lparr> res_ok = True, res_text = ''{...}'',
                res_json = Some (Body (Places_array
                  [Record sample_closed, Other_element, Record sample_full,
                   Record sample_sparse])) \<rparr>"

definition null_body_api :: "api_request \<Rightarrow> fetch_result" where
  "null_body_api req =
     Resolved \<lparr> res_ok = True, res_text = ''null'', res_json = Some Null_body \<rparr>"

definition sample_key :: cache_key where
  "sample_key = cacheKey_of ''sushi'' True (Fin 1) (Fin 3) ''restaurant''"

definition stale_state :: server_state where
  "stale_state =
     \<lparr> CACHE = [sample_key \<mapsto> \<lparr> entry_t = 0, entry_data = [] \<rparr>], api_calls = [] \<rparr>"

definition warm_state :: server_state where
  "warm_state =
     \<lparr> CACHE = [sample_key \<mapsto> \<lparr> entry_t = 1000, entry_data = [sushi_bar] \<rparr>],
       api_calls = [request_body ''sushi'' ''restaurant''] \<rparr>"

section \<open>Facts about numbers\<close>

lemma js_le_Fin [simp]: "js_le (Fin a) (Fin b) = (a \<le> b)"
  by (auto simp: js_le_def)

lemma js_lt_Inf [simp]:
  "\<not> js_lt x NegInf"
  "\<not> js_lt PosInf x"
  by (cases x; simp)+

lemma PRICE_LEVELS_in_range:
  assumes "l \<in> set PRICE_LEVELS"
  shows "js_le (Fin 0) l \<and> js_le l (Fin 4)"
  using assms by (auto simp: PRICE_LEVELS_def)

section \<open>Normalisation\<close>

lemma to_place_price_level: "price_level (to_place r) \<in> set PRICE_LEVELS"
  by (cases "priceLevel r") (simp_all add: to_place_def PRICE_LEVELS_def)

lemma to_place_normalized:
  assumes "operational r"
  shows "normalized_from r (to_place r)"
proof -
  have "price_level (to_place r) = Fin 0" if "priceLevel r = Some l" "out_of_range l" for l
  proof -
    from that(2) have "l \<notin> set PRICE_LEVELS"
      using PRICE_LEVELS_in_range by (auto simp: out_of_range_def)
    with that(1) show ?thesis by (simp add: to_place_def)
  qed
  with assms show ?thesis
    by (simp add: normalized_from_def operational_def to_place_def)
qed

text \<open>
  Claim C2. The records the normaliser returns are, one for one and in order, the upstream
  records whose operational status is \<^verbatim>\<open>"OPERATIONAL"\<close>: a record with any other status
  (or none) is dropped and no record is dropped for another reason. In each kept record a
  missing rating is 0, a missing review count is 0, a missing or out-of-range price tier
  is 0, missing categories are the empty list, and the open-now flag is the upstream
  flag, absent when that one is absent.
\<close>

theorem normalize_places_defaults:
  "list_all2 normalized_from
     (filter (\<lambda>r. businessStatus r = Some ''OPERATIONAL'') (raw_records json))
     (normalize_places json)"
proof -
  have "list_all2 normalized_from (filter operational rs) (map to_place (filter operational rs))"
    for rs
    by (simp add: list_all2_map2 list_all2_same to_place_normalized)
  then show ?thesis
    by (simp add: normalize_places_def operational_def [abs_def])
qed

text \<open>
  The theorem at a response of two records: the closed one is dropped, and the operating
  one, which has no rating, no review count, price tier 7, no categories and no open-now
  flag, is kept with rating 0, review count 0, price tier 0, no categories and no flag.
\<close>

theorem normalize_places_defaults_witness:
  "list_all2 normalized_from [sample_sparse]
     (normalize_places \<lparr> places = Some [sample_closed, sample_sparse] \<rparr>) \<and>
   r_rating sample_sparse = None \<and> userRatingCount sample_sparse = None \<and>
   priceLevel sample_sparse = Some (Fin 7) \<and> out_of_range (Fin 7) \<and>
   r_types sample_sparse = None \<and> currentOpeningHours_openNow sample_sparse = None \<and>
   normalize_places \<lparr> places = Some [sample_closed, sample_sparse] \<rparr> =
     [\<lparr> p_id = ''b2'', place_id = ''gb2'', name = str ''Bare Bones'', rating = Fin 0,
        user_ratings_total = Fin 0, price_level = Fin 0, types = [], open_now = None \<rparr>]"
proof -
  let ?json = "\<lparr> places = Some [sample_closed, sample_sparse] \<rparr>"
  have "filter (\<lambda>r. businessStatus r = Some ''OPERATIONAL'') (raw_records ?json) = [sample_sparse]"
    by (simp add: raw_records_def sample_closed_def sample_sparse_def)
  with normalize_places_defaults [of ?json]
  have "list_all2 normalized_from [sample_sparse] (normalize_places ?json)"
    by simp
  moreover have "normalize_places ?json =
     [\<lparr> p_id = ''b2'', place_id = ''gb2'', name = str ''Bare Bones'', rating = Fin 0,
        user_ratings_total = Fin 0, price_level = Fin 0, types = [], open_now = None \<rparr>]"
    by (simp add: normalize_places_def raw_records_def operational_def to_place_def
        PRICE_LEVELS_def sample_closed_def sample_sparse_def)
  ultimately show ?thesis
    by (simp add: sample_sparse_def out_of_range_def)
qed

lemma set_mapped_subset: "set (mapped json lo hi o_now) \<subseteq> set (normalize_places json)"
  by (auto simp: mapped_def)

lemma to_place_invariant:
  assumes "upstream_non_negative r"
  shows "place_invariant (to_place r)"
proof -
  have "js_le (Fin 0) (price_level (to_place r)) \<and> js_le (price_level (to_place r)) (Fin 4)"
    using PRICE_LEVELS_in_range [OF to_place_price_level] .
  moreover have "js_le (Fin 0) (rating (to_place r))"
    using assms by (cases "r_rating r") (simp_all add: upstream_non_negative_def to_place_def)
  moreover have "js_le (Fin 0) (user_ratings_total (to_place r))"
    using assms
    by (cases "userRatingCount r") (simp_all add: upstream_non_negative_def to_place_def)
  ultimately show ?thesis
    by (simp add: place_invariant_def)
qed

text \<open>
  Claim C4, as stated, fails. The normaliser copies the upstream rating and review count
  when they are present: an operating record with rating -1 and review count -5 gives a
  \<^verbatim>\<open>Place\<close> with rating -1, which breaks the invariant, in the normaliser's output
  and in the list the handler returns and caches.
\<close>

theorem negative_rating_breaks_invariant:
  "normalize_places \<lparr> places = Some [sample_negative] \<rparr> = [to_place sample_negative] \<and>
   rating (to_place sample_negative) = Fin (-1) \<and>
   \<not> place_invariant (to_place sample_negative) \<and>
   \<not> list_all place_invariant (mapped \<lparr> places = Some [sample_negative] \<rparr> (Fin 0) (Fin 4) False)"
  by (simp add: mapped_def normalize_places_def raw_records_def operational_def to_place_def
      PRICE_LEVELS_def sample_negative_def place_invariant_def price_ok_def open_ok_def js_ge_def)

text \<open>
  Claim C4, amended. For every upstream response, every \<^verbatim>\<open>Place\<close> the normaliser produces,
  and so every one the handler returns or caches, has a price tier that is one of 0, 1, 2,
  3, 4. It is made from an operating record of the response; its rating and review count
  are those of that record, 0 when missing, so they are non-negative, and the whole
  invariant holds, when that record carries no negative rating or review count.
\<close>

theorem normalize_places_invariant:
  assumes "p \<in> set (normalize_places json) \<or> p \<in> set (mapped json minPrice maxPrice openNow)"
  shows "price_level p \<in> set PRICE_LEVELS \<and>
         js_le (Fin 0) (price_level p) \<and> js_le (price_level p) (Fin 4) \<and>
         (\<exists>r \<in> set (raw_records json).
            operational r \<and> p = to_place r \<and>
            rating p = (case r_rating r of None \<Rightarrow> Fin 0 | Some x \<Rightarrow> x) \<and>
            user_ratings_total p = (case userRatingCount r of None \<Rightarrow> Fin 0 | Some n \<Rightarrow> n) \<and>
            (upstream_non_negative r \<longrightarrow> place_invariant p))"
proof -
  from assms have "p \<in> set (normalize_places json)"
    using set_mapped_subset by blast
  then obtain r where r: "r \<in> set (raw_records json)" "operational r" "p = to_place r"
    by (auto simp: normalize_places_def)
  have "price_level p \<in> set PRICE_LEVELS"
    by (simp add: r(3) to_place_price_level)
  moreover from this have "js_le (Fin 0) (price_level p) \<and> js_le (price_level p) (Fin 4)"
    by (rule PRICE_LEVELS_in_range)
  moreover have "rating p = (case r_rating r of None \<Rightarrow> Fin 0 | Some x \<Rightarrow> x)"
    and "user_ratings_total p = (case userRatingCount r of None \<Rightarrow> Fin 0 | Some n \<Rightarrow> n)"
    by (simp_all add: r(3) to_place_def)
  moreover have "upstream_non_negative r \<longrightarrow> place_invariant p"
    by (simp add: r(3) to_place_invariant)
  ultimately show ?thesis
    using r by blast
qed

text \<open>
  The theorem at a response with one closed and one operating record, rating 4.5, 320
  reviews, price tier 3: the operating record is returned and satisfies the invariant.
\<close>

theorem normalize_places_invariant_witness:
  "to_place sample_full \<in>
     set (mapped \<lparr> places = Some [sample_closed, sample_full] \<rparr> (Fin 0) (Fin 4) True) \<and>
   upstream_non_negative sample_full \<and> \<not> operational sample_closed \<and>
   price_level (to_place sample_full) = Fin 3 \<and>
   rating (to_place sample_full) = Fin 4.5 \<and>
   place_invariant (to_place sample_full)"
proof -
  let ?json = "\<lparr> places = Some [sample_closed, sample_full] \<rparr>"
  have m: "to_place sample_full \<in> set (mapped ?json (Fin 0) (Fin 4) True)"
    by (simp add: mapped_def normalize_places_def raw_records_def operational_def to_place_def
        PRICE_LEVELS_def sample_closed_def sample_full_def price_ok_def open_ok_def js_ge_def)
  have u: "upstream_non_negative sample_full"
    by (simp add: upstream_non_negative_def sample_full_def)
  have c: "\<not> operational sample_closed"
    by (simp add: operational_def sample_closed_def)
  have recs: "set (raw_records ?json) = {sample_closed, sample_full}"
    by (simp add: raw_records_def)
  from normalize_places_invariant [of "to_place sample_full" ?json "Fin 0" "Fin 4" True] m
  obtain r where "r \<in> set (raw_records ?json)" "operational r"
    "upstream_non_negative r \<longrightarrow> place_invariant (to_place sample_full)"
    by blast
  with recs c u have "place_invariant (to_place sample_full)"
    by auto
  with m u c show ?thesis
    by (simp add: to_place_def sample_full_def PRICE_LEVELS_def)
qed

section \<open>The open-now filter\<close>

lemma keep_open_now:
  "keep s o_only r t p \<longleftrightarrow> open_ok o_only p \<and> keep s False r t p"
  by (simp add: keep_def open_ok_def)

text \<open>
  Claim C3. With the open-now filter active the server keeps a \<^verbatim>\<open>Place\<close> exactly when
  its flag is true or absent, so a flag that is explicitly false excludes it; with the
  filter inactive every \<^verbatim>\<open>Place\<close> passes. The client applies the same test: a
  \<^verbatim>\<open>Place\<close> passes the client filter exactly when it passes the server's open-now test
  and the client's other three tests, and with the filter inactive the flag plays no part.
  With the other three tests out of the way (empty search string, no category, no bound
  on the price) the client keeps a \<^verbatim>\<open>Place\<close> exactly when the server's test does: with
  the filter active exactly when the flag is true or absent, with the filter inactive
  always. Hence on both sides the list with the filter active is the list with the filter
  inactive, less the records whose flag is false.
\<close>

theorem open_now_filter_tristate:
  "(open_ok True p \<longleftrightarrow> open_now p = Some True \<or> open_now p = None) \<and>
   open_ok False p \<and>
   (keep search openNowOnly priceRange selectedType p \<longleftrightarrow>
      open_ok openNowOnly p \<and> keep search False priceRange selectedType p) \<and>
   keep search False priceRange selectedType (p \<lparr> open_now := flag \<rparr>) =
     keep search False priceRange selectedType p \<and>
   mapped json minPrice maxPrice openNow =
     filter (open_ok openNow) (mapped json minPrice maxPrice False) \<and>
   filtered data search openNowOnly priceRange selectedType =
     filter (open_ok openNowOnly) (filtered data search False priceRange selectedType) \<and>
   (keep [] openNowOnly (NegInf, PosInf) [] p \<longleftrightarrow> open_ok openNowOnly p) \<and>
   (keep [] True (NegInf, PosInf) [] p \<longleftrightarrow> open_now p = Some True \<or> open_now p = None) \<and>
   keep [] False (NegInf, PosInf) [] p"
proof -
  have tri: "open_ok True p \<longleftrightarrow> open_now p = Some True \<or> open_now p = None"
    by (cases "open_now p") (auto simp: open_ok_def)
  have off: "open_ok False x" for x
    by (simp add: open_ok_def)
  have indep: "keep search False priceRange selectedType (p \<lparr> open_now := flag \<rparr>) =
     keep search False priceRange selectedType p"
    by (simp add: keep_def)
  have server: "mapped json minPrice maxPrice openNow =
     filter (open_ok openNow) (mapped json minPrice maxPrice False)"
    by (simp add: mapped_def off)
  have client: "filtered data search openNowOnly priceRange selectedType =
     filter (open_ok openNowOnly) (filtered data search False priceRange selectedType)"
    unfolding filtered_def filter_filter
    by (rule filter_cong [OF refl]) (use keep_open_now in blast)
  have alone: "keep [] on (NegInf, PosInf) [] p \<longleftrightarrow> open_ok on p" for on
    by (simp add: keep_def open_ok_def js_gt_def)
  from alone [of True] tri
  have active: "keep [] True (NegInf, PosInf) [] p \<longleftrightarrow> open_now p = Some True \<or> open_now p = None"
    by simp
  from alone [of False] off have inactive: "keep [] False (NegInf, PosInf) [] p"
    by simp
  from tri off indep server client keep_open_now alone active inactive show ?thesis
    by blast
qed

text \<open>
  The theorem at three records whose flags are true, false and absent: with the filter
  active the client and the server keep the first and the third and drop the second,
  with the filter inactive they keep all three.
\<close>

theorem open_now_filter_tristate_witness:
  "open_now sushi_bar = Some True \<and> open_now pizza_corner = Some False \<and>
   open_now noodle_house = None \<and>
   keep [] True (NegInf, PosInf) [] sushi_bar \<and> open_ok True sushi_bar \<and>
   \<not> keep [] True (NegInf, PosInf) [] pizza_corner \<and> \<not> open_ok True pizza_corner \<and>
   keep [] True (NegInf, PosInf) [] noodle_house \<and> open_ok True noodle_house \<and>
   keep [] False (NegInf, PosInf) [] pizza_corner \<and> open_ok False pizza_corner \<and>
   filtered sample_places [] True (NegInf, PosInf) [] = [sushi_bar, noodle_house] \<and>
   filtered sample_places [] False (NegInf, PosInf) [] = sample_places"
proof -
  have flags: "open_now sushi_bar = Some True" "open_now pizza_corner = Some False"
    "open_now noodle_house = None"
    by (simp_all add: sushi_bar_def pizza_corner_def noodle_house_def)
  note t = open_now_filter_tristate [where search = "[]" and priceRange = "(NegInf, PosInf)"
      and selectedType = "[]" and data = sample_places and openNowOnly = True
      and flag = None and json = "\<lparr> places = None \<rparr>" and minPrice = NegInf
      and maxPrice = PosInf and openNow = True]
  have client: "keep [] True (NegInf, PosInf) [] x \<longleftrightarrow> open_now x = Some True \<or> open_now x = None"
    for x using t [where p = x] by (elim conjE)
  have server: "open_ok True x \<longleftrightarrow> open_now x = Some True \<or> open_now x = None"
    for x using t [where p = x] by (elim conjE)
  have off_client: "keep [] False (NegInf, PosInf) [] x"
    for x using t [where p = x] by (elim conjE)
  have off_server: "open_ok False x"
    for x using t [where p = x] by (elim conjE)
  note off = off_client off_server
  have lists: "filtered sample_places [] True (NegInf, PosInf) [] =
      filter (open_ok True) (filtered sample_places [] False (NegInf, PosInf) [])"
    using t [where p = sushi_bar] by (elim conjE)
  have a: "keep [] True (NegInf, PosInf) [] sushi_bar \<and> open_ok True sushi_bar"
    using client [of sushi_bar] server [of sushi_bar] flags(1) by simp
  have b: "\<not> keep [] True (NegInf, PosInf) [] pizza_corner \<and> \<not> open_ok True pizza_corner"
    using client [of pizza_corner] server [of pizza_corner] flags(2) by simp
  have c: "keep [] True (NegInf, PosInf) [] noodle_house \<and> open_ok True noodle_house"
    using client [of noodle_house] server [of noodle_house] flags(3) by simp
  have all: "filtered sample_places [] False (NegInf, PosInf) [] = sample_places"
    by (simp add: filtered_def off)
  have some: "filtered sample_places [] True (NegInf, PosInf) [] = [sushi_bar, noodle_house]"
    unfolding lists all using a b c by (simp add: sample_places_def)
  from flags a b c off all some show ?thesis
    by simp
qed

lemma open_now_filter_example:
  "filtered sample_places [] True (Fin 0, Fin 4) [] = [sushi_bar, noodle_house] \<and>
   filtered sample_places [] False (Fin 0, Fin 4) [] = sample_places"
  by (simp add: filtered_def keep_def js_gt_def sample_places_def sushi_bar_def
      pizza_corner_def noodle_house_def)

section \<open>The default filter state\<close>

lemma keep_default:
  assumes "place_invariant p"
  shows "keep [] False (Fin 0, Fin 4) [] p"
proof -
  from assms have "\<not> js_lt (price_level p) (Fin 0)" "\<not> js_lt (Fin 4) (price_level p)"
    by (simp_all add: place_invariant_def js_le_def)
  then show ?thesis
    by (simp add: keep_def js_gt_def)
qed

text \<open>
  Claim C5. For every list of \<^verbatim>\<open>Place\<close> records that satisfy the invariants, the client
  filter in its default state (empty search string, open-now-only off, price range [0,4],
  no category selected) returns the list unchanged.
\<close>

theorem filtered_default_identity:
  assumes "\<forall>p \<in> set data. place_invariant p"
  shows "filtered data [] False (Fin 0, Fin 4) [] = data"
  unfolding filtered_def
  using assms by (intro filter_True ballI keep_default) blast

text \<open>The theorem at a list of three records, with price tiers 3, 0 and 4.\<close>

theorem filtered_default_identity_witness:
  "list_all place_invariant sample_places \<and>
   filtered sample_places [] False (Fin 0, Fin 4) [] = sample_places"
proof -
  have inv: "\<forall>p \<in> set sample_places. place_invariant p"
    by (simp add: sample_places_def sushi_bar_def pizza_corner_def noodle_house_def
        place_invariant_def)
  from filtered_default_identity [OF inv] inv show ?thesis
    by (simp add: list_all_iff)
qed

section \<open>The price filter\<close>

lemma price_ok_iff:
  "price_ok lo hi p \<longleftrightarrow> js_le lo (price_level p) \<and> js_le (price_level p) hi"
  by (simp add: price_ok_def js_ge_def)

lemma normalize_places_price_unbounded:
  assumes "p \<in> set (normalize_places json)"
  shows "price_ok NegInf PosInf p"
proof -
  from assms obtain r where "p = to_place r"
    by (auto simp: normalize_places_def)
  then have "price_level p \<in> set PRICE_LEVELS"
    by (simp add: to_place_price_level)
  then show ?thesis
    by (auto simp: PRICE_LEVELS_def price_ok_iff js_le_def)
qed

lemma mapped_price:
  "mapped json lo hi o_now = filter (price_ok lo hi) (mapped json NegInf PosInf o_now)"
proof -
  have "filter (price_ok NegInf PosInf) (normalize_places json) = normalize_places json"
    by (simp add: normalize_places_price_unbounded)
  then have "mapped json NegInf PosInf o_now = filter (open_ok o_now) (normalize_places json)"
    by (simp add: mapped_def)
  then show ?thesis
    by (auto simp: mapped_def intro: filter_cong)
qed

lemma keep_price:
  assumes "price_level p \<noteq> NaN" "lo \<noteq> NaN" "hi \<noteq> NaN"
  shows "keep s o_only (lo, hi) t p \<longleftrightarrow>
           (js_le lo (price_level p) \<and> js_le (price_level p) hi) \<and>
           keep s o_only (NegInf, PosInf) t p"
  using assms by (auto simp: keep_def js_gt_def js_le_def)

text \<open>
  Claim C6. On the server a \<^verbatim>\<open>Place\<close> passes the price filter with bounds \<open>minPrice\<close>
  and \<open>maxPrice\<close> exactly when \<open>minPrice \<le> price tier \<le> maxPrice\<close>, and the list the
  handler computes is the list for unbounded prices restricted to that closed range. On
  the client, for a price tier and bounds that are numbers (not NaN), a \<^verbatim>\<open>Place\<close> passes
  the filter with range \<open>[lo, hi]\<close> exactly when \<open>lo \<le> price tier \<le> hi\<close> and it passes
  the other three tests. Both bounds are included: \<open>\<le>\<close> holds at equality.
\<close>

theorem price_filter_inclusive:
  "(price_ok minPrice maxPrice p \<longleftrightarrow>
      js_le minPrice (price_level p) \<and> js_le (price_level p) maxPrice) \<and>
   mapped json minPrice maxPrice openNow =
     filter (\<lambda>p. js_le minPrice (price_level p) \<and> js_le (price_level p) maxPrice)
       (mapped json NegInf PosInf openNow) \<and>
   (price_level p \<noteq> NaN \<and> lo \<noteq> NaN \<and> hi \<noteq> NaN \<longrightarrow>
      (keep search openNowOnly (lo, hi) selectedType p \<longleftrightarrow>
         (js_le lo (price_level p) \<and> js_le (price_level p) hi) \<and>
         keep search openNowOnly (NegInf, PosInf) selectedType p))"
proof -
  have "mapped json minPrice maxPrice openNow =
     filter (\<lambda>p. js_le minPrice (price_level p) \<and> js_le (price_level p) maxPrice)
       (mapped json NegInf PosInf openNow)"
    using mapped_price [of json minPrice maxPrice openNow]
    by (simp add: price_ok_iff [abs_def])
  with price_ok_iff keep_price show ?thesis
    by blast
qed

text \<open>
  The theorem at a \<^verbatim>\<open>Place\<close> of price tier 3: with both bounds equal to 3 it passes on
  the server and on the client, with bounds 0 and 2 it fails on both.
\<close>

theorem price_filter_inclusive_witness:
  "price_level sushi_bar = Fin 3 \<and>
   keep [] False (Fin 3, Fin 3) [] sushi_bar \<and>
   price_ok (Fin 3) (Fin 3) sushi_bar \<and>
   \<not> keep [] False (Fin 0, Fin 2) [] sushi_bar \<and>
   \<not> price_ok (Fin 0) (Fin 2) sushi_bar"
proof -
  have pl: "price_level sushi_bar = Fin 3"
    by (simp add: sushi_bar_def)
  have rest: "keep [] False (NegInf, PosInf) [] sushi_bar"
    by (simp add: keep_def js_gt_def sushi_bar_def)
  from price_filter_inclusive [of "Fin 3" "Fin 3" sushi_bar _ _ "Fin 3" "Fin 3" "[]" False "[]"]
    pl rest
  have a: "keep [] False (Fin 3, Fin 3) [] sushi_bar \<and> price_ok (Fin 3) (Fin 3) sushi_bar"
    by simp
  from price_filter_inclusive [of "Fin 0" "Fin 2" sushi_bar _ _ "Fin 0" "Fin 2" "[]" False "[]"]
    pl
  have b: "\<not> keep [] False (Fin 0, Fin 2) [] sushi_bar \<and> \<not> price_ok (Fin 0) (Fin 2) sushi_bar"
    by simp
  from pl a b show ?thesis by blast
qed

section \<open>The name filter\<close>

lemma starts_with_iff: "starts_with xs s \<longleftrightarrow> (\<exists>post. xs = s @ post)"
  by (induction xs s rule: starts_with.induct) auto

lemma js_includes_iff: "js_includes xs s \<longleftrightarrow> (\<exists>pre post. xs = pre @ s @ post)"
proof (induction xs)
  case Nil
  then show ?case by auto
next
  case (Cons x xs)
  have "(\<exists>pre post. x # xs = pre @ s @ post) \<longleftrightarrow>
        (\<exists>post. x # xs = s @ post) \<or> (\<exists>pre post. xs = pre @ s @ post)"
  proof
    assume "\<exists>pre post. x # xs = pre @ s @ post"
    then obtain pre post where e: "x # xs = pre @ s @ post" by blast
    show "(\<exists>post. x # xs = s @ post) \<or> (\<exists>pre post. xs = pre @ s @ post)"
    proof (cases pre)
      case Nil
      with e show ?thesis by auto
    next
      case (Cons y ys)
      with e have "xs = ys @ s @ post" by simp
      then show ?thesis by blast
    qed
  next
    assume "(\<exists>post. x # xs = s @ post) \<or> (\<exists>pre post. xs = pre @ s @ post)"
    then show "\<exists>pre post. x # xs = pre @ s @ post"
    proof
      assume "\<exists>post. x # xs = s @ post"
      then obtain post where "x # xs = [] @ s @ post" by auto
      then show ?thesis by blast
    next
      assume "\<exists>pre post. xs = pre @ s @ post"
      then obtain pre post where "x # xs = (x # pre) @ s @ post" by auto
      then show ?thesis by blast
    qed
  qed
  with Cons show ?case
    by (simp add: starts_with_iff)
qed

text \<open>
  The table of letters: no capital letter occurs twice, no small letter occurs twice, and
  no character is both a capital and a small letter.
\<close>

lemma capitals_distinct: "distinct (map fst upper_lower_pairs)"
  by (simp add: upper_lower_pairs_def)

lemma smalls_distinct: "distinct (map snd upper_lower_pairs)"
  by (simp add: upper_lower_pairs_def)

lemma capitals_not_small: "list_all (\<lambda>c. c \<notin> set (map snd upper_lower_pairs)) (map fst upper_lower_pairs)"
  by (simp add: upper_lower_pairs_def)

lemma pair_iff_map_of: "(a, b) \<in> set upper_lower_pairs \<longleftrightarrow> map_of upper_lower_pairs a = Some b"
  using capitals_distinct by simp

lemma pair_capital_not_small:
  assumes "(a, l) \<in> set upper_lower_pairs" "(b, m) \<in> set upper_lower_pairs"
  shows "a \<noteq> m"
proof -
  from assms(1) have "a \<in> set (map fst upper_lower_pairs)" by force
  with capitals_not_small have "a \<notin> set (map snd upper_lower_pairs)"
    unfolding list_all_iff by blast
  moreover from assms(2) have "m \<in> set (map snd upper_lower_pairs)" by force
  ultimately show ?thesis by blast
qed

lemma pair_small_determines_capital:
  assumes "(a, l) \<in> set upper_lower_pairs" "(b, l) \<in> set upper_lower_pairs"
  shows "a = b"
proof -
  from smalls_distinct have "inj_on snd (set upper_lower_pairs)"
    by (simp add: distinct_map)
  from inj_onD [OF this _ assms] show ?thesis by simp
qed

text \<open>
  Lower-casing decides letter case: two Latin-1 characters are the same letter up to case
  exactly when their lower cases are equal.
\<close>

lemma same_letter_iff: "same_letter a b \<longleftrightarrow> lower_char a = lower_char b"
proof (cases "map_of upper_lower_pairs a")
  case None
  note na = None
  then have a: "lower_char a = a" "\<And>x. (a, x) \<notin> set upper_lower_pairs"
    by (simp_all add: lower_char_def pair_iff_map_of)
  show ?thesis
  proof (cases "map_of upper_lower_pairs b")
    case None
    then have "lower_char b = b" "\<And>x. (b, x) \<notin> set upper_lower_pairs"
      by (simp_all add: lower_char_def pair_iff_map_of)
    with a show ?thesis by (simp add: same_letter_def)
  next
    case (Some m)
    then have b: "lower_char b = m" "(b, m) \<in> set upper_lower_pairs"
      by (simp_all add: lower_char_def pair_iff_map_of)
    from Some na have "a \<noteq> b" by auto
    moreover have "(b, a) \<in> set upper_lower_pairs \<longleftrightarrow> m = a"
      using Some by (auto simp: pair_iff_map_of)
    ultimately show ?thesis
      using a b by (auto simp: same_letter_def)
  qed
next
  case (Some l)
  note sa = Some
  then have a: "lower_char a = l" "(a, l) \<in> set upper_lower_pairs"
    by (simp_all add: lower_char_def pair_iff_map_of)
  show ?thesis
  proof (cases "map_of upper_lower_pairs b")
    case None
    then have b: "lower_char b = b" "\<And>x. (b, x) \<notin> set upper_lower_pairs"
      by (simp_all add: lower_char_def pair_iff_map_of)
    from None sa have "a \<noteq> b" by auto
    moreover have "(a, b) \<in> set upper_lower_pairs \<longleftrightarrow> l = b"
      using sa by (auto simp: pair_iff_map_of)
    ultimately show ?thesis
      using a b by (auto simp: same_letter_def)
  next
    case (Some m)
    then have b: "lower_char b = m" "(b, m) \<in> set upper_lower_pairs"
      by (simp_all add: lower_char_def pair_iff_map_of)
    have "(a, b) \<notin> set upper_lower_pairs"
      using pair_capital_not_small [OF b(2), of a b] by blast
    moreover have "(b, a) \<notin> set upper_lower_pairs"
      using pair_capital_not_small [OF a(2), of b a] by blast
    moreover have "l = m \<longleftrightarrow> a = b"
      using a(2) b(2) sa Some pair_small_determines_capital by auto
    ultimately show ?thesis
      using a b by (auto simp: same_letter_def)
  qed
qed

lemma lower_from_no_capital_sigma:
  assumes "Capital_Sigma \<notin> set s"
  shows "lower_from before s = map lower_js_char s"
  using assms by (induction s arbitrary: before) auto

lemma latin1_only_no_capital_sigma:
  assumes "latin1_only s"
  shows "Capital_Sigma \<notin> set s"
proof
  assume "Capital_Sigma \<in> set s"
  with assms have "is_latin1 Capital_Sigma"
    unfolding latin1_only_def list_all_iff by blast
  then show False by simp
qed

lemma toLowerCase_latin1:
  assumes "latin1_only s"
  shows "toLowerCase s = map lower_js_char s"
  using latin1_only_no_capital_sigma [OF assms]
  by (simp add: toLowerCase_def lower_from_no_capital_sigma)

lemma latin1_only_append [simp]:
  "latin1_only (xs @ ys) \<longleftrightarrow> latin1_only xs \<and> latin1_only ys"
  by (simp add: latin1_only_def)

lemma same_letters_iff:
  assumes "latin1_only u" "latin1_only s"
  shows "list_all2 same_letter_js u s \<longleftrightarrow> map lower_js_char u = map lower_js_char s"
  using assms
proof (induction u arbitrary: s)
  case Nil
  then show ?case by auto
next
  case (Cons a u)
  show ?case
  proof (cases s)
    case Nil
    then show ?thesis by simp
  next
    case (Cons b t)
    with Cons.prems obtain x y where xy: "a = Latin1 x" "b = Latin1 y"
      and rest: "latin1_only u" "latin1_only t"
      by (cases a; cases b) (auto simp: latin1_only_def)
    from Cons.IH [OF rest] xy Cons show ?thesis
      by (simp add: same_letter_iff)
  qed
qed

lemma ci_substring_iff:
  assumes "latin1_only s" "latin1_only n"
  shows "ci_substring s n \<longleftrightarrow> (\<exists>pre post. toLowerCase n = pre @ toLowerCase s @ post)"
proof
  assume "ci_substring s n"
  then obtain pre u post where n: "n = pre @ u @ post" and u: "list_all2 same_letter_js u s"
    by (auto simp: ci_substring_def)
  from n assms(2) have "latin1_only u" by simp
  with u assms(1) have "map lower_js_char u = map lower_js_char s"
    by (simp add: same_letters_iff)
  with n have "map lower_js_char n =
      map lower_js_char pre @ map lower_js_char s @ map lower_js_char post"
    by simp
  then show "\<exists>pre post. toLowerCase n = pre @ toLowerCase s @ post"
    unfolding toLowerCase_latin1 [OF assms(1)] toLowerCase_latin1 [OF assms(2)] by blast
next
  assume "\<exists>pre post. toLowerCase n = pre @ toLowerCase s @ post"
  then obtain a b where "map lower_js_char n = a @ map lower_js_char s @ b"
    unfolding toLowerCase_latin1 [OF assms(1)] toLowerCase_latin1 [OF assms(2)] by blast
  then have "\<exists>pre rest. n = pre @ rest \<and> a = map lower_js_char pre \<and>
      map lower_js_char s @ b = map lower_js_char rest"
    by (rule map_eq_append_conv [THEN iffD1])
  then obtain pre rest where 1: "n = pre @ rest"
    "map lower_js_char rest = map lower_js_char s @ b"
    by auto
  from 1(2) have "\<exists>u post. rest = u @ post \<and> map lower_js_char s = map lower_js_char u \<and>
      b = map lower_js_char post"
    by (rule map_eq_append_conv [THEN iffD1])
  then obtain u post where 2: "rest = u @ post" "map lower_js_char u = map lower_js_char s"
    by auto
  from 1 2 have n: "n = pre @ u @ post" by simp
  with assms(2) have "latin1_only u" by simp
  with 2(2) assms(1) have "list_all2 same_letter_js u s"
    by (simp add: same_letters_iff)
  with n show "ci_substring s n"
    unfolding ci_substring_def by blast
qed

lemma keep_name_alone:
  "keep search False (NegInf, PosInf) [] p \<longleftrightarrow>
     (\<exists>pre post. toLowerCase (name p) = pre @ toLowerCase search @ post)"
proof (cases "search = []")
  case True
  have "toLowerCase (name p) = [] @ toLowerCase [] @ toLowerCase (name p)"
    by (simp add: toLowerCase_def)
  then have "\<exists>pre post. toLowerCase (name p) = pre @ toLowerCase [] @ post"
    by blast
  with True show ?thesis
    by (simp add: keep_def js_gt_def)
next
  case False
  then show ?thesis
    by (simp add: keep_def js_gt_def js_includes_iff)
qed

lemma keep_name_split:
  "keep search openNowOnly priceRange selectedType p \<longleftrightarrow>
     keep search False (NegInf, PosInf) [] p \<and> keep [] openNowOnly priceRange selectedType p"
  by (simp add: keep_def js_gt_def)

text \<open>
  Claim C7: a \<^verbatim>\<open>Place\<close> passes the name filter if and only if the search string is a
  case-insensitive substring of its display name, which is what the comment on the test
  says it does. The code does not meet it. The name is the letter A followed by a capital
  sigma and the search string is a capital sigma: the search string is a substring of
  the name as it stands, so a case-insensitive substring too, and the filter excludes the
  record. The name lower-cases to a followed by the final small sigma, the search string
  to the small sigma, and the one is not part of the other.
\<close>

theorem name_filter_final_sigma:
  "name alpha_sigma = [Latin1 (CHR ''A'')] @ [Capital_Sigma] @ [] \<and>
   ci_substring [Capital_Sigma] (name alpha_sigma) \<and>
   toLowerCase (name alpha_sigma) = [Latin1 (CHR ''a''), Final_Small_Sigma] \<and>
   toLowerCase [Capital_Sigma] = [Small_Sigma] \<and>
   \<not> keep [Capital_Sigma] False (NegInf, PosInf) [] alpha_sigma"
proof -
  have n: "name alpha_sigma = [Latin1 (CHR ''A'')] @ [Capital_Sigma] @ []"
    by (simp add: alpha_sigma_def)
  have "list_all2 same_letter_js [Capital_Sigma] [Capital_Sigma]"
    by simp
  with n have ci: "ci_substring [Capital_Sigma] (name alpha_sigma)"
    unfolding ci_substring_def by blast
  have l: "toLowerCase (name alpha_sigma) = [Latin1 (CHR ''a''), Final_Small_Sigma]"
    by (simp add: alpha_sigma_def toLowerCase_def final_sigma_def lower_char_def
        upper_lower_pairs_def)
  have s: "toLowerCase [Capital_Sigma] = [Small_Sigma]"
    by (simp add: toLowerCase_def final_sigma_def)
  have "\<not> keep [Capital_Sigma] False (NegInf, PosInf) [] alpha_sigma"
    by (simp add: keep_def l s)
  with n ci l s show ?thesis by blast
qed

text \<open>
  What the name test does. A \<^verbatim>\<open>Place\<close> passes the name test (the filter with the other
  three tests out of the way) exactly when the lower-cased search string is a substring
  of the lower-cased display name, and it passes the filter exactly when it passes the
  name test and the other three tests. For a search string and a display name of Latin-1
  characters the name test passes exactly when the search string is a case-insensitive
  substring of the name. The empty search string matches every \<^verbatim>\<open>Place\<close>.
\<close>

lemma name_filter_case_insensitive:
  "(keep search False (NegInf, PosInf) [] p \<longleftrightarrow>
      (\<exists>pre post. toLowerCase (name p) = pre @ toLowerCase search @ post)) \<and>
   (keep search openNowOnly priceRange selectedType p \<longleftrightarrow>
      keep search False (NegInf, PosInf) [] p \<and> keep [] openNowOnly priceRange selectedType p) \<and>
   (latin1_only search \<and> latin1_only (name p) \<longrightarrow>
      (keep search False (NegInf, PosInf) [] p \<longleftrightarrow> ci_substring search (name p))) \<and>
   keep [] False (NegInf, PosInf) [] p"
proof -
  have "keep search False (NegInf, PosInf) [] p \<longleftrightarrow> ci_substring search (name p)"
    if "latin1_only search" "latin1_only (name p)"
    using ci_substring_iff [OF that] keep_name_alone by simp
  moreover have "keep [] False (NegInf, PosInf) [] p"
    by (simp add: keep_def js_gt_def)
  ultimately show ?thesis
    using keep_name_alone keep_name_split by blast
qed

text \<open>
  The lemma at the place named CAFE with the accented capital E: the search string that
  is the small accented e (U+00E9) matches, as does \<open>af\<close>, and \<open>tea\<close> does not.
\<close>

lemma name_filter_case_insensitive_example:
  "latin1_only [Latin1 (CHR 0xE9)] \<and> latin1_only (str ''af'') \<and> latin1_only (str ''tea'') \<and>
   latin1_only (name cafe) \<and>
   keep [Latin1 (CHR 0xE9)] False (NegInf, PosInf) [] cafe \<and>
   ci_substring [Latin1 (CHR 0xE9)] (name cafe) \<and>
   keep (str ''af'') False (NegInf, PosInf) [] cafe \<and>
   ci_substring (str ''af'') (name cafe) \<and>
   \<not> keep (str ''tea'') False (NegInf, PosInf) [] cafe \<and>
   \<not> ci_substring (str ''tea'') (name cafe)"
proof -
  have l: "latin1_only [Latin1 (CHR 0xE9)]" "latin1_only (str ''af'')"
    "latin1_only (str ''tea'')" "latin1_only (name cafe)"
    by (simp_all add: latin1_only_def str_def cafe_def)
  have low: "toLowerCase (name cafe) = str ''caf'' @ [Latin1 (CHR 0xE9)]"
    "toLowerCase [Latin1 (CHR 0xE9)] = [Latin1 (CHR 0xE9)]"
    "toLowerCase (str ''af'') = str ''af''"
    "toLowerCase (str ''tea'') = str ''tea''"
    by (simp_all add: toLowerCase_def str_def cafe_def lower_char_def upper_lower_pairs_def)
  have k: "keep [Latin1 (CHR 0xE9)] False (NegInf, PosInf) [] cafe"
    "keep (str ''af'') False (NegInf, PosInf) [] cafe"
    "\<not> keep (str ''tea'') False (NegInf, PosInf) [] cafe"
    by (simp_all add: keep_def js_gt_def low) (simp_all add: str_def)
  from name_filter_case_insensitive [where p = cafe and search = "[Latin1 (CHR 0xE9)]"] l k
  have a: "ci_substring [Latin1 (CHR 0xE9)] (name cafe)" by blast
  from name_filter_case_insensitive [where p = cafe and search = "str ''af''"] l k
  have b: "ci_substring (str ''af'') (name cafe)" by blast
  from name_filter_case_insensitive [where p = cafe and search = "str ''tea''"] l k
  have c: "\<not> ci_substring (str ''tea'') (name cafe)" by blast
  from l k a b c show ?thesis by blast
qed

lemma name_filter_example:
  "filtered sample_places (str ''ZZA c'') False (Fin 0, Fin 4) [] = [pizza_corner] \<and>
   filtered sample_places (str ''sushi  bar'') False (Fin 0, Fin 4) [] = []"
  by (simp add: filtered_def keep_def sample_places_def sushi_bar_def pizza_corner_def
      noodle_house_def toLowerCase_def str_def lower_char_def upper_lower_pairs_def js_gt_def)

section \<open>The category options\<close>

text \<open>The order on strings: a proper prefix first, otherwise by the first differing character.\<close>

lemma string_order_lexicographic:
  fixes a b :: char and s t :: string
  shows "[] \<le> t" and "\<not> a # s \<le> []" and "a # s \<le> b # t \<longleftrightarrow> a < b \<or> a = b \<and> s \<le> t"
  by simp_all

lemma fold_set_add:
  assumes "distinct s"
  shows "distinct (fold (\<lambda>t s. set_add s t) ts s) \<and>
         set (fold (\<lambda>t s. set_add s t) ts s) = set s \<union> set ts"
  using assms by (induction ts arbitrary: s) (auto simp: set_add_def)

lemma fold_types:
  assumes "distinct s"
  shows "distinct (fold (\<lambda>p s. fold (\<lambda>t s. set_add s t) (types p) s) data s) \<and>
         set (fold (\<lambda>p s. fold (\<lambda>t s. set_add s t) (types p) s) data s) =
           set s \<union> (\<Union>p \<in> set data. set (types p))"
  using assms
proof (induction data arbitrary: s)
  case Nil
  then show ?case by simp
next
  case (Cons p data)
  from fold_set_add [OF Cons.prems, of "types p"]
  have d: "distinct (fold (\<lambda>t s. set_add s t) (types p) s)"
    and e: "set (fold (\<lambda>t s. set_add s t) (types p) s) = set s \<union> set (types p)"
    by simp_all
  from Cons.IH [OF d] e show ?case
    by auto
qed

text \<open>
  Claim C8. For every list of \<^verbatim>\<open>Place\<close> records, the derived list of category options is
  sorted in ascending lexicographic order (the order of strings is the lexicographic one
  on character codes), has no duplicates, and holds exactly the labels that occur among
  the categories of some record.
\<close>

theorem availableTypes_sorted_distinct:
  "sorted (availableTypes data) \<and> distinct (availableTypes data) \<and>
   set (availableTypes data) = (\<Union>p \<in> set data. set (types p))"
proof -
  let ?collected = "fold (\<lambda>p s. fold (\<lambda>t s. set_add s t) (types p) s) data []"
  from fold_types [of "[]" data]
  have "distinct ?collected" and "set ?collected = (\<Union>p \<in> set data. set (types p))"
    by simp_all
  then show ?thesis
    by (simp add: availableTypes_def)
qed

lemma availableTypes_example:
  "availableTypes sample_places = [''pizza'', ''restaurant'', ''sushi'']"
  by (simp add: availableTypes_def sample_places_def sushi_bar_def pizza_corner_def
      noodle_house_def set_add_def)

section \<open>The handler\<close>

lemma GET_hit:
  assumes "fresh_entry s (cacheKey_of q openNow minPrice maxPrice type) now_check c"
  shows "GET fetch now_check now_store q openNow minPrice maxPrice type s =
           (Inr \<lparr> status = 200,
                  body = \<lparr> places_field = Some (entry_data c), error_field = None \<rparr> \<rparr>, s)"
  using assms by (simp add: GET_def fresh_entry_def NextResponse_json_def)

lemma GET_miss:
  assumes "\<forall>c. \<not> fresh_entry s (cacheKey_of q openNow minPrice maxPrice type) now_check c"
  shows "GET fetch now_check now_store q openNow minPrice maxPrice type s =
     (let cacheKey = cacheKey_of q openNow minPrice maxPrice type;
          req = request_body q type;
          s1 = s \<lparr> api_calls := api_calls s @ [req] \<rparr>
      in case fetch req of
           Rejected \<Rightarrow> (Inl FetchRejected, s1)
         | Resolved res \<Rightarrow>
             if \<not> res_ok res then
               (Inr \<lparr> status = 500,
                      body = \<lparr> places_field = None, error_field = Some (res_text res) \<rparr> \<rparr>, s1)
             else
               (case res_json res of
                  None \<Rightarrow> (Inl BodyNotJson, s1)
                | Some b \<Rightarrow>
                    if throws_TypeError b then (Inl TypeError, s1)
                    else
                      (Inr \<lparr> status = 200,
                             body = \<lparr> places_field =
                                        Some (mapped (as_PlaceResponse b) minPrice maxPrice openNow),
                                      error_field = None \<rparr> \<rparr>,
                       s1 \<lparr> CACHE := (CACHE s)
                              (cacheKey \<mapsto>
                                 \<lparr> entry_t = now_store,
                                   entry_data =
                                     mapped (as_PlaceResponse b) minPrice maxPrice openNow \<rparr>) \<rparr>)))"
proof -
  let ?k = "cacheKey_of q openNow minPrice maxPrice type"
  have "(case CACHE s ?k of None \<Rightarrow> None
         | Some c \<Rightarrow> if now_check - entry_t c < TTL then Some c else None) = None"
    using assms by (cases "CACHE s ?k") (simp_all add: fresh_entry_def)
  then show ?thesis
    by (simp add: GET_def Let_def NextResponse_json_def split: fetch_result.split option.split)
qed

lemma GET_miss_calls:
  assumes "\<forall>c. \<not> fresh_entry s (cacheKey_of q openNow minPrice maxPrice type) now_check c"
  shows "api_calls (snd (GET fetch now_check now_store q openNow minPrice maxPrice type s)) =
           api_calls s @ [request_body q type]"
  unfolding GET_miss [OF assms] Let_def
  by (simp split: fetch_result.split option.split)

lemma GET_from_url_defaults:
  "GET_from_url to_number fetch now_check now_store Map.empty s =
     GET fetch now_check now_store ''restaurants in Boston, MA'' False
       (to_number ''0'') (to_number ''4'') [] s"
  by (simp add: GET_from_url_def)

lemma TTL_twelve_hours: "TTL = 12 * (60 * 60 * 1000)"
  by (simp add: TTL_def)

lemma stale_state_miss: "\<forall>c. \<not> fresh_entry stale_state sample_key (TTL + 5) c"
  by (auto simp: fresh_entry_def stale_state_def)

lemma sample_mapped:
  "mapped (as_PlaceResponse (Body (Places_array
       [Record sample_closed, Other_element, Record sample_full, Record sample_sparse])))
     (Fin 1) (Fin 3) True
     = [sushi_bar]"
  by (simp add: mapped_def normalize_places_def raw_records_def operational_def to_place_def
      PRICE_LEVELS_def sample_closed_def sample_full_def sample_sparse_def sushi_bar_def
      price_ok_def open_ok_def js_ge_def)

text \<open>
  After a miss the cache changes only on the path that reaches \<^verbatim>\<open>CACHE.set\<close>: when the
  fetch is rejected, the response is not a success, the body is not JSON or reading it
  throws, the cache is the one before the request.
\<close>

lemma GET_miss_no_store:
  assumes "\<forall>c. \<not> fresh_entry s (cacheKey_of q openNow minPrice maxPrice type) now_check c"
    and "\<not> (\<exists>res b. fetch (request_body q type) = Resolved res \<and> res_ok res \<and>
             res_json res = Some b \<and> \<not> throws_TypeError b)"
  shows "CACHE (snd (GET fetch now_check now_store q openNow minPrice maxPrice type s)) = CACHE s"
  using assms(2) unfolding GET_miss [OF assms(1)] Let_def
  by (auto split: fetch_result.split option.split)

lemma GET_null_body_example:
  "GET null_body_api 5 6 ''sushi'' True (Fin 1) (Fin 3) ''restaurant''
       \<lparr> CACHE = Map.empty, api_calls = [] \<rparr> =
     (Inl TypeError, \<lparr> CACHE = Map.empty, api_calls = [request_body ''sushi'' ''restaurant''] \<rparr>)"
  by (simp add: GET_def Let_def null_body_api_def)

text \<open>
  Claim C9. When the handler calls the places API (the cache has no fresh entry for the
  key) and the API answers with a response that is not a success, the handler sends no
  second request: the one request is the only call added. It returns status 500, which is
  not a 2xx status, with a body whose \<^verbatim>\<open>error\<close> field is the raw text of the upstream
  response and which has no \<^verbatim>\<open>places\<close> field.
\<close>

theorem GET_upstream_failure:
  assumes "\<forall>c. \<not> fresh_entry s (cacheKey_of q openNow minPrice maxPrice type) now_check c"
    and "fetch (request_body q type) = Resolved res"
    and "\<not> res_ok res"
  shows "GET fetch now_check now_store q openNow minPrice maxPrice type s =
           (Inr \<lparr> status = 500,
                  body = \<lparr> places_field = None, error_field = Some (res_text res) \<rparr> \<rparr>,
            s \<lparr> api_calls := api_calls s @ [request_body q type] \<rparr>) \<and>
         \<not> success_status 500"
proof -
  have "GET fetch now_check now_store q openNow minPrice maxPrice type s =
           (Inr \<lparr> status = 500,
                  body = \<lparr> places_field = None, error_field = Some (res_text res) \<rparr> \<rparr>,
            s \<lparr> api_calls := api_calls s @ [request_body q type] \<rparr>)"
    using assms(2,3) unfolding GET_miss [OF assms(1)] Let_def by simp
  then show ?thesis
    by (simp add: success_status_def)
qed

text \<open>
  The theorem at a request whose cache entry has expired and an API that answers with a
  failure whose body is the text \<^verbatim>\<open>quota exceeded\<close>.
\<close>

theorem GET_upstream_failure_witness:
  "\<not> (\<exists>c. fresh_entry stale_state sample_key (TTL + 5) c) \<and>
   failing_api (request_body ''sushi'' ''restaurant'') =
     Resolved \<lparr> res_ok = False, res_text = ''quota exceeded'', res_json = None \<rparr> \<and>
   GET failing_api (TTL + 5) (TTL + 6) ''sushi'' True (Fin 1) (Fin 3) ''restaurant'' stale_state =
     (Inr \<lparr> status = 500,
            body = \<lparr> places_field = None, error_field = Some ''quota exceeded'' \<rparr> \<rparr>,
      stale_state \<lparr> api_calls := [request_body ''sushi'' ''restaurant''] \<rparr>)"
proof -
  have miss: "\<forall>c. \<not> fresh_entry stale_state
      (cacheKey_of ''sushi'' True (Fin 1) (Fin 3) ''restaurant'') (TTL + 5) c"
    using stale_state_miss by (simp add: sample_key_def)
  have fails: "failing_api (request_body ''sushi'' ''restaurant'') =
     Resolved \<lparr> res_ok = False, res_text = ''quota exceeded'', res_json = None \<rparr>"
    by (simp add: failing_api_def)
  have "\<not> res_ok \<lparr> res_ok = False, res_text = ''quota exceeded'', res_json = None \<rparr>"
    by simp
  from GET_upstream_failure [where fetch = failing_api and now_store = "TTL + 6", OF miss fails this]
    miss fails
  show ?thesis
    by (simp add: sample_key_def stale_state_def)
qed

text \<open>
  Claim C10. When the call to the places API gives a response that is not a success, the
  cache after the request is the cache before it: no entry is added, removed or
  overwritten, an expired entry under the same key included.
\<close>

theorem GET_failure_keeps_cache:
  assumes "fetch (request_body q type) = Resolved res"
    and "\<not> res_ok res"
  shows "CACHE (snd (GET fetch now_check now_store q openNow minPrice maxPrice type s)) = CACHE s"
proof (cases "\<exists>c. fresh_entry s (cacheKey_of q openNow minPrice maxPrice type) now_check c")
  case True
  then obtain c where "fresh_entry s (cacheKey_of q openNow minPrice maxPrice type) now_check c" ..
  then show ?thesis
    by (simp add: GET_hit)
next
  case False
  then have "\<forall>c. \<not> fresh_entry s (cacheKey_of q openNow minPrice maxPrice type) now_check c"
    by blast
  from GET_miss [OF this, of fetch now_store] assms show ?thesis
    by (simp add: Let_def)
qed

text \<open>
  The theorem at the request with the expired entry: after the failed call the entry
  stored at time 0 is still in the cache.
\<close>

theorem GET_failure_keeps_cache_witness:
  "failing_api (request_body ''sushi'' ''restaurant'') =
     Resolved \<lparr> res_ok = False, res_text = ''quota exceeded'', res_json = None \<rparr> \<and>
   CACHE (snd (GET failing_api (TTL + 5) (TTL + 6) ''sushi'' True (Fin 1) (Fin 3) ''restaurant''
                 stale_state)) = CACHE stale_state \<and>
   CACHE stale_state sample_key = Some \<lparr> entry_t = 0, entry_data = [] \<rparr>"
proof -
  have fails: "failing_api (request_body ''sushi'' ''restaurant'') =
     Resolved \<lparr> res_ok = False, res_text = ''quota exceeded'', res_json = None \<rparr>"
    by (simp add: failing_api_def)
  have "\<not> res_ok \<lparr> res_ok = False, res_text = ''quota exceeded'', res_json = None \<rparr>"
    by simp
  from GET_failure_keeps_cache [where fetch = failing_api, OF fails this] fails show ?thesis
    by (simp add: stale_state_def)
qed

text \<open>
  Claim C1, as stated, fails. A request whose entry has expired, or that has no entry,
  makes one call to the places API, but when that call fails the entry is not overwritten:
  the expired entry of time 0 is still the entry after a request at time \<open>TTL + 5\<close>, and
  a request on an empty cache leaves no entry under its key.
\<close>

theorem GET_miss_failure_no_overwrite:
  "\<not> fresh_entry stale_state sample_key (TTL + 5) \<lparr> entry_t = 0, entry_data = [] \<rparr> \<and>
   CACHE (snd (GET failing_api (TTL + 5) (TTL + 6) ''sushi'' True (Fin 1) (Fin 3) ''restaurant''
                 stale_state)) sample_key
     = Some \<lparr> entry_t = 0, entry_data = [] \<rparr> \<and>
   CACHE (snd (GET failing_api 5 6 ''sushi'' True (Fin 1) (Fin 3) ''restaurant''
                 \<lparr> CACHE = Map.empty, api_calls = [] \<rparr>)) sample_key
     = None"
  by (simp add: GET_def Let_def fresh_entry_def stale_state_def sample_key_def failing_api_def)

text \<open>
  Claim C1, amended. When the cache holds, under the key of the request's five
  parameters, an entry whose age is strictly below the TTL, the handler returns that
  entry's list with status 200 and leaves the state as it is: no call to the places API
  and no change to the cache. When there is no such entry (none at all, or one whose age
  has reached the TTL), the handler makes exactly one call to the places API; and when
  that call gives a success response whose body is JSON that the handler reads without
  an exception (the body is not \<^verbatim>\<open>null\<close>, and its \<^verbatim>\<open>places\<close> is absent or is an array
  with no \<^verbatim>\<open>null\<close> element), the handler returns the new list and the cache is the old
  one with the entry for that key overwritten by the new list and the time of the store.
\<close>

theorem GET_cache_behaviour:
  fixes fetch now_check now_store q openNow minPrice maxPrice type s
  defines "cacheKey \<equiv> cacheKey_of q openNow minPrice maxPrice type"
    and "req \<equiv> request_body q type"
    and "out \<equiv> GET fetch now_check now_store q openNow minPrice maxPrice type s"
  shows
    "(\<forall>c. fresh_entry s cacheKey now_check c \<longrightarrow>
        out = (Inr \<lparr> status = 200,
                      body = \<lparr> places_field = Some (entry_data c), error_field = None \<rparr> \<rparr>, s)) \<and>
     ((\<forall>c. \<not> fresh_entry s cacheKey now_check c) \<longrightarrow>
        api_calls (snd out) = api_calls s @ [req] \<and>
        (\<forall>res b. fetch req = Resolved res \<and> res_ok res \<and> res_json res = Some b \<and>
                  \<not> throws_TypeError b \<longrightarrow>
           out = (Inr \<lparr> status = 200,
                         body = \<lparr> places_field =
                                    Some (mapped (as_PlaceResponse b) minPrice maxPrice openNow),
                                  error_field = None \<rparr> \<rparr>,
                  \<lparr> CACHE = (CACHE s)
                       (cacheKey \<mapsto>
                          \<lparr> entry_t = now_store,
                            entry_data = mapped (as_PlaceResponse b) minPrice maxPrice openNow \<rparr>),
                    api_calls = api_calls s @ [req] \<rparr>)))"
proof (intro conjI allI impI)
  fix c
  assume "fresh_entry s cacheKey now_check c"
  then show "out = (Inr \<lparr> status = 200,
                      body = \<lparr> places_field = Some (entry_data c), error_field = None \<rparr> \<rparr>, s)"
    unfolding out_def cacheKey_def by (rule GET_hit)
next
  assume miss: "\<forall>c. \<not> fresh_entry s cacheKey now_check c"
  then show "api_calls (snd out) = api_calls s @ [req]"
    unfolding out_def cacheKey_def req_def by (rule GET_miss_calls)
next
  fix res b
  assume miss: "\<forall>c. \<not> fresh_entry s cacheKey now_check c"
    and ok: "fetch req = Resolved res \<and> res_ok res \<and> res_json res = Some b \<and>
             \<not> throws_TypeError b"
  from miss have "\<forall>c. \<not> fresh_entry s (cacheKey_of q openNow minPrice maxPrice type) now_check c"
    by (simp add: cacheKey_def)
  from GET_miss [OF this, of fetch now_store] ok
  show "out = (Inr \<lparr> status = 200,
                         body = \<lparr> places_field =
                                    Some (mapped (as_PlaceResponse b) minPrice maxPrice openNow),
                                  error_field = None \<rparr> \<rparr>,
                  \<lparr> CACHE = (CACHE s)
                       (cacheKey \<mapsto>
                          \<lparr> entry_t = now_store,
                            entry_data = mapped (as_PlaceResponse b) minPrice maxPrice openNow \<rparr>),
                    api_calls = api_calls s @ [req] \<rparr>)"
    by (simp add: out_def cacheKey_def req_def Let_def)
qed

text \<open>
  The theorem at a cache that holds the list \<open>[sushi_bar]\<close>, stored at time 1000. A
  request one millisecond before the entry's age reaches the TTL is answered from the
  cache and the state is unchanged. A request at age exactly TTL calls the API once, and
  since the API succeeds with a body the handler can read (an array of three records and
  a number) the entry is overwritten with the new list and the new time.
\<close>

theorem GET_cache_behaviour_witness:
  "fresh_entry warm_state sample_key (999 + TTL) \<lparr> entry_t = 1000, entry_data = [sushi_bar] \<rparr> \<and>
   GET sample_api (999 + TTL) (1001 + TTL) ''sushi'' True (Fin 1) (Fin 3) ''restaurant'' warm_state =
     (Inr \<lparr> status = 200, body = \<lparr> places_field = Some [sushi_bar], error_field = None \<rparr> \<rparr>,
      warm_state) \<and>
   \<not> (\<exists>c. fresh_entry warm_state sample_key (1000 + TTL) c) \<and>
   GET sample_api (1000 + TTL) (1001 + TTL) ''sushi'' True (Fin 1) (Fin 3) ''restaurant'' warm_state =
     (Inr \<lparr> status = 200, body = \<lparr> places_field = Some [sushi_bar], error_field = None \<rparr> \<rparr>,
      \<lparr> CACHE = [sample_key \<mapsto> \<lparr> entry_t = 1001 + TTL, entry_data = [sushi_bar] \<rparr>],
        api_calls = [request_body ''sushi'' ''restaurant'', request_body ''sushi'' ''restaurant''] \<rparr>)"
proof -
  let ?entry = "\<lparr> entry_t = 1000, entry_data = [sushi_bar] \<rparr>"
  let ?b = "Body (Places_array
      [Record sample_closed, Other_element, Record sample_full, Record sample_sparse])"
  let ?res = "\<lparr> res_ok = True, res_text = ''{...}'', res_json = Some ?b \<rparr>"
  have hit: "fresh_entry warm_state (cacheKey_of ''sushi'' True (Fin 1) (Fin 3) ''restaurant'')
      (999 + TTL) ?entry"
    by (simp add: fresh_entry_def warm_state_def sample_key_def)
  have miss: "\<forall>c. \<not> fresh_entry warm_state
      (cacheKey_of ''sushi'' True (Fin 1) (Fin 3) ''restaurant'') (1000 + TTL) c"
    by (auto simp: fresh_entry_def warm_state_def sample_key_def)
  have ok: "sample_api (request_body ''sushi'' ''restaurant'') = Resolved ?res \<and>
      res_ok ?res \<and> res_json ?res = Some ?b \<and> \<not> throws_TypeError ?b"
    by (simp add: sample_api_def)
  from GET_cache_behaviour [of warm_state "''sushi''" True "Fin 1" "Fin 3" "''restaurant''"
      "999 + TTL" sample_api "1001 + TTL"] hit
  have first: "GET sample_api (999 + TTL) (1001 + TTL) ''sushi'' True (Fin 1) (Fin 3)
      ''restaurant'' warm_state =
     (Inr \<lparr> status = 200, body = \<lparr> places_field = Some [sushi_bar], error_field = None \<rparr> \<rparr>,
      warm_state)"
    by fastforce
  from GET_cache_behaviour [of warm_state "''sushi''" True "Fin 1" "Fin 3" "''restaurant''"
      "1000 + TTL" sample_api "1001 + TTL"] miss ok
  have "GET sample_api (1000 + TTL) (1001 + TTL) ''sushi'' True (Fin 1) (Fin 3)
      ''restaurant'' warm_state =
     (Inr \<lparr> status = 200,
            body = \<lparr> places_field = Some (mapped (as_PlaceResponse ?b) (Fin 1) (Fin 3) True),
                     error_field = None \<rparr> \<rparr>,
      \<lparr> CACHE = (CACHE warm_state)
           (cacheKey_of ''sushi'' True (Fin 1) (Fin 3) ''restaurant'' \<mapsto>
              \<lparr> entry_t = 1001 + TTL,
                entry_data = mapped (as_PlaceResponse ?b) (Fin 1) (Fin 3) True \<rparr>),
        api_calls = api_calls warm_state @ [request_body ''sushi'' ''restaurant''] \<rparr>)"
    by blast
  then have second: "GET sample_api (1000 + TTL) (1001 + TTL) ''sushi'' True (Fin 1) (Fin 3)
      ''restaurant'' warm_state =
     (Inr \<lparr> status = 200, body = \<lparr> places_field = Some [sushi_bar], error_field = None \<rparr> \<rparr>,
      \<lparr> CACHE = [sample_key \<mapsto> \<lparr> entry_t = 1001 + TTL, entry_data = [sushi_bar] \<rparr>],
        api_calls = [request_body ''sushi'' ''restaurant'', request_body ''sushi'' ''restaurant''] \<rparr>)"
    unfolding sample_mapped by (simp add: warm_state_def sample_key_def)
  from hit miss first second show ?thesis
    by (simp add: sample_key_def)
qed

text \<open>
  Two requests with the same five parameters, the first of which missed the cache and got
  a success response that the handler could read: a second request whose time is less
  than the TTL after the store is answered from the cache without a call, and one at or
  after the TTL calls the API again.
\<close>

lemma GET_same_query_twice:
  fixes fetch fetch' :: "api_request \<Rightarrow> fetch_result"
    and now_check now_store :: int
    and q type :: string and openNow :: bool and minPrice maxPrice :: number
    and s :: server_state
  assumes miss: "\<forall>c. \<not> fresh_entry s (cacheKey_of q openNow minPrice maxPrice type) now_check c"
    and ok: "fetch (request_body q type) = Resolved res" "res_ok res" "res_json res = Some b"
      "\<not> throws_TypeError b"
  defines "s1 \<equiv> snd (GET fetch now_check now_store q openNow minPrice maxPrice type s)"
    and "m \<equiv> mapped (as_PlaceResponse b) minPrice maxPrice openNow"
  shows "api_calls s1 = api_calls s @ [request_body q type]"
    and "now' - now_store < TTL \<Longrightarrow>
           GET fetch' now' now'' q openNow minPrice maxPrice type s1 =
             (Inr \<lparr> status = 200,
                    body = \<lparr> places_field = Some m, error_field = None \<rparr> \<rparr>, s1)"
    and "TTL \<le> now' - now_store \<Longrightarrow>
           api_calls (snd (GET fetch' now' now'' q openNow minPrice maxPrice type s1)) =
             api_calls s @ [request_body q type, request_body q type]"
proof -
  let ?k = "cacheKey_of q openNow minPrice maxPrice type"
  let ?e = "\<lparr> entry_t = now_store, entry_data = m \<rparr>"
  from GET_miss [OF miss, of fetch now_store] ok
  have s1: "s1 = \<lparr> CACHE = (CACHE s)(?k \<mapsto> ?e), api_calls = api_calls s @ [request_body q type] \<rparr>"
    by (simp add: s1_def m_def Let_def)
  then show calls: "api_calls s1 = api_calls s @ [request_body q type]"
    by simp
  show "GET fetch' now' now'' q openNow minPrice maxPrice type s1 =
             (Inr \<lparr> status = 200,
                    body = \<lparr> places_field = Some m, error_field = None \<rparr> \<rparr>, s1)"
    if "now' - now_store < TTL"
  proof -
    from that s1 have "fresh_entry s1 ?k now' ?e"
      by (simp add: fresh_entry_def)
    from GET_hit [OF this] show ?thesis by simp
  qed
  show "api_calls (snd (GET fetch' now' now'' q openNow minPrice maxPrice type s1)) =
             api_calls s @ [request_body q type, request_body q type]"
    if "TTL \<le> now' - now_store"
  proof -
    from that s1 have "\<forall>c. \<not> fresh_entry s1 ?k now' c"
      by (auto simp: fresh_entry_def)
    from GET_miss_calls [OF this] calls show ?thesis by simp
  qed
qed

end
